theory Spec2Isabelle
  imports Complex_Main "HOL-Library.Sublist"
begin

section \<open>Data model\<close>

text \<open>
  The Python code passes documents, chunks and retrieved results around as dictionaries
  with fixed key sets. Each dictionary is a record whose fields are the keys. The keys
  \<open>content\<close> and \<open>source\<close> occur in all three dictionaries and \<open>metadata\<close> in two of
  them, so the records extend a common root. A missing \<open>metadata\<close> key is read with
  \<open>get('metadata', {})\<close>; the empty association list stands for both.

  Python floats are modelled as \<^typ>\<open>real\<close>, Python integers as \<^typ>\<open>int\<close>, and strings as
  \<^typ>\<open>string\<close>: one \<^typ>\<open>char\<close> stands for one character of the Python string, and
  case and whitespace are those of ASCII text.
\<close>

datatype meta_value = MStr string | MInt int

type_synonym meta = "(string \<times> meta_value) list"

record sourced =
  content :: string
  source :: string

record described = sourced +
  metadata :: meta

record document = described +
  doc_type :: string

record chunk = described +
  chunk_id :: nat
  start_char :: int
  end_char :: int

record retrieved = sourced +
  chunk :: chunk
  similarity :: real

text \<open>Exceptions that can leave the modelled functions.\<close>

datatype py_error =
  ValueError_not_initialized
  | ValueError_shapes_not_aligned
  | IndexError

section \<open>Python string and slice primitives\<close>

text \<open>
  \<open>py_index n i\<close> is the position a slice bound \<open>i\<close> denotes in a sequence of length
  \<open>n\<close>: negative bounds count from the end, and every bound is clamped to \<open>0..n\<close>.
\<close>

definition py_index :: "nat \<Rightarrow> int \<Rightarrow> nat" where
  "py_index n i = (if i < 0 then nat (max 0 (int n + i)) else min n (nat i))"

definition py_slice :: "'a list \<Rightarrow> int \<Rightarrow> int \<Rightarrow> 'a list" where
  "py_slice xs i j =
     (let a = py_index (length xs) i; b = py_index (length xs) j
      in take (b - a) (drop a xs))"

text \<open>\<open>xs[i:]\<close> and \<open>xs[:j]\<close>.\<close>

definition py_slice_from :: "'a list \<Rightarrow> int \<Rightarrow> 'a list" where
  "py_slice_from xs i = drop (py_index (length xs) i) xs"

definition py_slice_to :: "'a list \<Rightarrow> int \<Rightarrow> 'a list" where
  "py_slice_to xs j = take (py_index (length xs) j) xs"

text \<open>
  \<open>s.rfind(c, i, j)\<close> for a one-character needle: the highest position in the slice
  \<open>[i, j)\<close> that holds \<open>c\<close>, or \<open>-1\<close>.
\<close>

definition rfind :: "char \<Rightarrow> string \<Rightarrow> int \<Rightarrow> int \<Rightarrow> int" where
  "rfind c s i j =
     (let a = py_index (length s) i; b = py_index (length s) j
      in case filter (\<lambda>k. s ! k = c) (rev [a..<b]) of
           [] \<Rightarrow> - 1
         | k # _ \<Rightarrow> int k)"

text \<open>
  The whitespace of \<open>str.strip()\<close>, \<open>str.split()\<close> within ASCII: tab, line feed,
  vertical tab, form feed, carriage return, the four separators \<open>0x1c..0x1f\<close>, and space.
\<close>

definition is_space :: "char \<Rightarrow> bool" where
  "is_space c = (let n = of_char c :: nat in (9 \<le> n \<and> n \<le> 13) \<or> (28 \<le> n \<and> n \<le> 32))"

definition strip :: "string \<Rightarrow> string" where
  "strip s = rev (dropWhile is_space (rev (dropWhile is_space s)))"

section \<open>TextChunker\<close>

record TextChunker =
  chunk_size :: int
  chunk_overlap :: int

text \<open>\<open>TextChunker()\<close> with the default arguments of \<open>__init__\<close>.\<close>

definition TextChunker_init :: TextChunker where
  "TextChunker_init = \<lparr>chunk_size = 1000, chunk_overlap = 200\<rparr>"

text \<open>The boundary adjustment of one window (lines 25 to 38): the value of \<open>end\<close>.\<close>

definition window_end :: "TextChunker \<Rightarrow> string \<Rightarrow> int \<Rightarrow> int" where
  "window_end tc s start =
     (let end0 = start + chunk_size tc
      in if end0 < int (length s) then
           let last_period = rfind (CHR ''.'') s start end0;
               last_exclamation = rfind (CHR ''!'') s start end0;
               last_question = rfind (CHR ''?'') s start end0;
               sentence_end = max (max last_period last_exclamation) last_question
           in if sentence_end > start then sentence_end + 1 else end0
         else end0)"

text \<open>
  The \<open>while\<close> loop of \<open>_split_single_document\<close>. The state is \<open>start\<close> and the list
  \<open>chunks\<close>; the last component counts the executions of the loop body and has no
  counterpart in the Python code.
\<close>

function split_loop ::
  "TextChunker \<Rightarrow> document \<Rightarrow> int \<Rightarrow> chunk list \<Rightarrow> nat \<Rightarrow> chunk list \<times> nat" where
  "split_loop tc doc start chunks iters =
     (if start < int (length (content doc)) then
        let end1 = window_end tc (content doc) start;
            chunk_content = strip (py_slice (content doc) start end1);
            chunks' =
              (if chunk_content \<noteq> [] then
                 chunks @ [\<lparr>content = chunk_content, source = source doc,
                            metadata = metadata doc, chunk_id = length chunks,
                            start_char = start, end_char = end1\<rparr>]
               else chunks)
        in split_loop tc doc (max (start + 1) (end1 - chunk_overlap tc)) chunks' (Suc iters)
      else (chunks, iters))"
  by pat_completeness auto
termination
  by (relation "measure (\<lambda>(tc, doc, start, chunks, iters). nat (int (length (content doc)) - start))")
     auto

declare split_loop.simps [simp del]

definition split_single_document :: "TextChunker \<Rightarrow> document \<Rightarrow> chunk list" where
  "split_single_document tc doc = fst (split_loop tc doc 0 [] 0)"

definition split_iterations :: "TextChunker \<Rightarrow> document \<Rightarrow> nat" where
  "split_iterations tc doc = snd (split_loop tc doc 0 [] 0)"

fun split_documents_loop :: "TextChunker \<Rightarrow> document list \<Rightarrow> chunk list \<Rightarrow> chunk list" where
  "split_documents_loop tc [] chunks = chunks"
| "split_documents_loop tc (doc # docs) chunks =
     split_documents_loop tc docs (chunks @ split_single_document tc doc)"

definition split_documents :: "TextChunker \<Rightarrow> document list \<Rightarrow> chunk list" where
  "split_documents tc documents = split_documents_loop tc documents []"

text \<open>
  The iteration bound as the specification words it:
  \<open>ceil(len(content) / (chunk_size - overlap)) + 1\<close>.
\<close>

definition spec_iteration_bound :: "TextChunker \<Rightarrow> document \<Rightarrow> int" where
  "spec_iteration_bound tc doc =
     \<lceil>real (length (content doc)) / real_of_int (chunk_size tc - chunk_overlap tc)\<rceil> + 1"

section \<open>EmbeddingSystem\<close>

text \<open>
  The embedding service is outside the program. It is a parameter \<open>api\<close>: the answer to
  the \<open>n\<close>-th request, made for a text, is \<open>Some v\<close> when the service returns the vector
  \<open>v\<close> and \<open>None\<close> when the request raises (the \<open>except\<close> branch of
  \<open>_generate_single_embedding\<close> then returns \<open>None\<close>). The only state of the
  \<open>EmbeddingSystem\<close> object that the model tracks is the number of requests sent, so that
  two requests for the same text may be answered differently.
\<close>

type_synonym vec = "real list"

type_synonym embedding_api = "nat \<Rightarrow> string \<Rightarrow> vec option"

record EmbeddingSystem =
  requests :: nat

definition EmbeddingSystem_init :: EmbeddingSystem where
  "EmbeddingSystem_init = \<lparr>requests = 0\<rparr>"

definition generate_single_embedding ::
  "embedding_api \<Rightarrow> EmbeddingSystem \<Rightarrow> string \<Rightarrow> vec option \<times> EmbeddingSystem" where
  "generate_single_embedding api es text_in =
     (api (requests es) text_in, es\<lparr>requests := Suc (requests es)\<rparr>)"

text \<open>Python truth value of \<open>None\<close> or a list: only a non-empty list is true.\<close>

fun truthy :: "vec option \<Rightarrow> bool" where
  "truthy None = False"
| "truthy (Some v) = (v \<noteq> [])"

fun generate_embeddings_loop ::
  "embedding_api \<Rightarrow> EmbeddingSystem \<Rightarrow> string list \<Rightarrow> vec list \<Rightarrow> vec list \<times> EmbeddingSystem" where
  "generate_embeddings_loop api es [] embs = (embs, es)"
| "generate_embeddings_loop api es (t # texts) embs =
     (case generate_single_embedding api es t of
        (embedding, es') \<Rightarrow>
          if truthy embedding then generate_embeddings_loop api es' texts (embs @ [the embedding])
          else generate_embeddings_loop api es' texts embs)"

definition generate_embeddings ::
  "embedding_api \<Rightarrow> EmbeddingSystem \<Rightarrow> string list \<Rightarrow> vec list \<times> EmbeddingSystem" where
  "generate_embeddings api es texts = generate_embeddings_loop api es texts []"

text \<open>
  The outcome of each request of a batch whose first request is the \<open>n\<close>-th, in input
  order: what \<open>_generate_single_embedding\<close> returns for each text.
\<close>

fun outcomes :: "embedding_api \<Rightarrow> nat \<Rightarrow> string list \<Rightarrow> vec option list" where
  "outcomes api n [] = []"
| "outcomes api n (t # texts) = api n t # outcomes api (Suc n) texts"

section \<open>SimpleVectorStore\<close>

record SimpleVectorStore =
  embeddings :: "vec list"
  chunks :: "chunk list"
  store_metadata :: "meta list"

definition SimpleVectorStore_init :: SimpleVectorStore where
  "SimpleVectorStore_init = \<lparr>embeddings = [], chunks = [], store_metadata = []\<rparr>"

text \<open>\<open>[0.0] * 1536\<close>\<close>

definition placeholder :: vec where
  "placeholder = replicate 1536 0"

fun add_chunks_basic :: "SimpleVectorStore \<Rightarrow> chunk list \<Rightarrow> SimpleVectorStore" where
  "add_chunks_basic st [] = st"
| "add_chunks_basic st (c # cs) =
     add_chunks_basic
       \<lparr>embeddings = embeddings st @ [placeholder],
        chunks = chunks st @ [c],
        store_metadata = store_metadata st @ [metadata c]\<rparr> cs"

fun add_chunks_zip :: "SimpleVectorStore \<Rightarrow> (chunk \<times> vec) list \<Rightarrow> SimpleVectorStore" where
  "add_chunks_zip st [] = st"
| "add_chunks_zip st ((c, embedding) # rest) =
     add_chunks_zip
       \<lparr>embeddings = embeddings st @ [if embedding \<noteq> [] then embedding else placeholder],
        chunks = chunks st @ [c],
        store_metadata = store_metadata st @ [metadata c]\<rparr> rest"

definition add_chunks :: "SimpleVectorStore \<Rightarrow> chunk list \<Rightarrow> vec list \<Rightarrow> SimpleVectorStore" where
  "add_chunks st cs embs =
     (if embs = [] then add_chunks_basic st cs else add_chunks_zip st (zip cs embs))"

text \<open>
  \<open>np.dot\<close> on two one-dimensional arrays of different lengths raises \<open>ValueError\<close>;
  the norm is the Euclidean norm.
\<close>

definition dot :: "vec \<Rightarrow> vec \<Rightarrow> real" where
  "dot v1 v2 = sum_list (map2 (*) v1 v2)"

definition norm2 :: "vec \<Rightarrow> real" where
  "norm2 v = sqrt (sum_list (map (\<lambda>x. x * x) v))"

definition cosine_similarity :: "vec \<Rightarrow> vec \<Rightarrow> py_error + real" where
  "cosine_similarity vec1 vec2 =
     (if length vec1 \<noteq> length vec2 then Inl ValueError_shapes_not_aligned
      else if norm2 vec1 = 0 \<or> norm2 vec2 = 0 then Inr 0
      else Inr (dot vec1 vec2 / (norm2 vec1 * norm2 vec2)))"

fun similarities_loop :: "vec \<Rightarrow> vec list \<Rightarrow> real list \<Rightarrow> py_error + real list" where
  "similarities_loop q [] sims = Inr sims"
| "similarities_loop q (e # es) sims =
     (case cosine_similarity q e of
        Inl err \<Rightarrow> Inl err
      | Inr sim \<Rightarrow> similarities_loop q es (sims @ [sim]))"

text \<open>
  \<open>np.argsort\<close>: the positions of \<open>sims\<close> in ascending order of their values. The order
  among equal values is that of a stable sort here; no statement below depends on it.
\<close>

definition argsort :: "real list \<Rightarrow> nat list" where
  "argsort sims = sort_key (\<lambda>i. sims ! i) [0..<length sims]"

text \<open>\<open>np.argsort(similarities)[-top_k:][::-1]\<close>\<close>

definition top_indices :: "real list \<Rightarrow> int \<Rightarrow> nat list" where
  "top_indices sims top_k = rev (py_slice_from (argsort sims) (- top_k))"

fun results_loop ::
  "chunk list \<Rightarrow> real list \<Rightarrow> nat list \<Rightarrow> (chunk \<times> real) list \<Rightarrow> py_error + (chunk \<times> real) list" where
  "results_loop cs sims [] results = Inr results"
| "results_loop cs sims (idx # idxs) results =
     (if sims ! idx > 0 then
        (if idx < length cs then results_loop cs sims idxs (results @ [(cs ! idx, sims ! idx)])
         else Inl IndexError)
      else results_loop cs sims idxs results)"

definition search :: "SimpleVectorStore \<Rightarrow> vec \<Rightarrow> int \<Rightarrow> py_error + (chunk \<times> real) list" where
  "search st query_embedding top_k =
     (if embeddings st = [] then Inr []
      else case similarities_loop query_embedding (embeddings st) [] of
             Inl err \<Rightarrow> Inl err
           | Inr sims \<Rightarrow> results_loop (chunks st) sims (top_indices sims top_k) [])"

section \<open>RAGPipeline\<close>

record RAGPipeline =
  text_chunker :: TextChunker
  embedding_system :: EmbeddingSystem
  vector_store :: SimpleVectorStore
  is_initialized :: bool

text \<open>
  \<open>RAGPipeline(data_dir)\<close>. The document loader reads files; its result, the list of
  documents, is an argument of \<open>initialize\<close> below.
\<close>

definition RAGPipeline_init :: RAGPipeline where
  "RAGPipeline_init =
     \<lparr>text_chunker = TextChunker_init, embedding_system = EmbeddingSystem_init,
      vector_store = SimpleVectorStore_init, is_initialized = False\<rparr>"

text \<open>The filter loop of \<open>initialize\<close> (lines 33 to 39).\<close>

fun valid_loop ::
  "(chunk \<times> vec) list \<Rightarrow> chunk list \<Rightarrow> vec list \<Rightarrow> chunk list \<times> vec list" where
  "valid_loop [] valid_chunks valid_embeddings = (valid_chunks, valid_embeddings)"
| "valid_loop ((c, embedding) # rest) valid_chunks valid_embeddings =
     (if embedding \<noteq> [] then
        valid_loop rest (valid_chunks @ [c]) (valid_embeddings @ [embedding])
      else valid_loop rest valid_chunks valid_embeddings)"

definition initialize :: "embedding_api \<Rightarrow> document list \<Rightarrow> RAGPipeline \<Rightarrow> RAGPipeline" where
  "initialize api documents p =
     (let cs = split_documents (text_chunker p) documents;
          chunk_texts = map content cs
      in case generate_embeddings api (embedding_system p) chunk_texts of
           (embs, es') \<Rightarrow>
             (case valid_loop (zip cs embs) [] [] of
                (valid_chunks, valid_embeddings) \<Rightarrow>
                  if valid_chunks = [] then
                    p\<lparr>embedding_system := es',
                      vector_store := add_chunks (vector_store p) cs [],
                      is_initialized := True\<rparr>
                  else
                    p\<lparr>embedding_system := es',
                      vector_store := add_chunks (vector_store p) valid_chunks valid_embeddings,
                      is_initialized := True\<rparr>))"

subsection \<open>Lexical fallback search\<close>

text \<open>\<open>str.lower()\<close> on ASCII text: the letters \<open>A..Z\<close> move to \<open>a..z\<close>.\<close>

definition lower_char :: "char \<Rightarrow> char" where
  "lower_char c =
     (let n = of_char c :: nat in if 65 \<le> n \<and> n \<le> 90 then char_of (n + 32) else c)"

definition lower :: "string \<Rightarrow> string" where
  "lower s = map lower_char s"

text \<open>\<open>needle in haystack\<close> on strings.\<close>

fun py_in :: "string \<Rightarrow> string \<Rightarrow> bool" where
  "py_in needle [] = (needle = [])"
| "py_in needle (h # hs) = (prefix needle (h # hs) \<or> py_in needle hs)"

text \<open>\<open>s.split()\<close>: the maximal runs of non-whitespace characters.\<close>

fun split_ws :: "string \<Rightarrow> string \<Rightarrow> string list" where
  "split_ws cur [] = (if cur = [] then [] else [cur])"
| "split_ws cur (c # cs) =
     (if is_space c then (if cur = [] then split_ws [] cs else cur # split_ws [] cs)
      else split_ws (cur @ [c]) cs)"

definition py_split :: "string \<Rightarrow> string list" where
  "py_split s = split_ws [] s"

definition make_retrieved :: "chunk \<Rightarrow> real \<Rightarrow> retrieved" where
  "make_retrieved c score =
     \<lparr>content = content c, source = source c, chunk = c, similarity = score\<rparr>"

fun basic_loop :: "string \<Rightarrow> chunk list \<Rightarrow> retrieved list \<Rightarrow> retrieved list" where
  "basic_loop question_lower [] results = results"
| "basic_loop question_lower (c # cs) results =
     (let content_lower = lower (content c)
      in if py_in question_lower content_lower then
           basic_loop question_lower cs (results @ [make_retrieved c 1])
         else if list_ex (\<lambda>word. py_in word content_lower) (py_split question_lower) then
           basic_loop question_lower cs (results @ [make_retrieved c (1 / 2)])
         else basic_loop question_lower cs results)"

text \<open>
  \<open>results.sort(key=..., reverse=True)\<close> is a stable sort by descending key: entries
  with equal keys keep their order.
\<close>

definition sort_reverse :: "retrieved list \<Rightarrow> retrieved list" where
  "sort_reverse results = sort_key (\<lambda>x. - similarity x) results"

definition basic_text_search :: "RAGPipeline \<Rightarrow> string \<Rightarrow> int \<Rightarrow> retrieved list" where
  "basic_text_search p question_in top_k =
     py_slice_to (sort_reverse (basic_loop (lower question_in) (chunks (vector_store p)) [])) top_k"

subsection \<open>Answer generation\<close>

text \<open>
  The answer service is a parameter \<open>llm\<close>: \<open>llm prompt\<close> is the message content it
  returns, or \<open>None\<close> when the request raises. \<open>_generate_with_openai\<close> strips the content.
\<close>

type_synonym answer_api = "string \<Rightarrow> string option"

definition generate_with_openai :: "answer_api \<Rightarrow> string \<Rightarrow> string option" where
  "generate_with_openai llm prompt = map_option strip (llm prompt)"

text \<open>\<open>str(n)\<close> for a non-negative integer.\<close>

fun show_nat :: "nat \<Rightarrow> string" where
  "show_nat n =
     (if n < 10 then [char_of (48 + n)]
      else show_nat (n div 10) @ [char_of (48 + n mod 10)])"

declare show_nat.simps [simp del]

fun context_loop :: "nat \<Rightarrow> retrieved list \<Rightarrow> string list \<Rightarrow> string list" where
  "context_loop i [] context_parts = context_parts"
| "context_loop i (r # rs) context_parts =
     context_loop (Suc i) rs
       (context_parts @
          [''Source '' @ show_nat i @ '' ('' @ source (chunk r) @ ''):\<newline>'' @ content (chunk r)])"

text \<open>\<open>sep.join(parts)\<close>\<close>

fun join :: "string \<Rightarrow> string list \<Rightarrow> string" where
  "join sep [] = []"
| "join sep [x] = x"
| "join sep (x # y # ys) = x @ sep @ join sep (y # ys)"

definition make_prompt :: "string \<Rightarrow> string \<Rightarrow> string" where
  "make_prompt context_text question_in =
     ''Based on the following information, provide a comprehensive and accurate answer to the question.\<newline>\<newline>Context Information:\<newline>''
     @ context_text
     @ ''\<newline>\<newline>Question: '' @ question_in
     @ ''\<newline>\<newline>Instructions:\<newline>- Use only the information provided in the context\<newline>- If the context doesn''
     @ [CHR 0x27]
     @ ''t contain enough information to fully answer the question, say so\<newline>- Provide a clear, well-structured answer\<newline>- Cite the sources when possible\<newline>\<newline>Answer:''"

fun format_loop :: "nat \<Rightarrow> retrieved list \<Rightarrow> string \<Rightarrow> string" where
  "format_loop i [] response_text = response_text"
| "format_loop i (r # rs) response_text =
     format_loop (Suc i) rs
       (response_text @ show_nat i @ ''. From '' @ source (chunk r) @ '':\<newline>''
          @ content (chunk r) @ ''\<newline>\<newline>'')"

definition format_basic_response :: "string \<Rightarrow> retrieved list \<Rightarrow> string" where
  "format_basic_response question_in retrieved_chunks =
     (if retrieved_chunks = [] then ''No relevant information found.''
      else
        format_loop 1 retrieved_chunks
          (''Based on the available information, here'' @ [CHR 0x27] @ ''s what I found about ''
             @ [CHR 0x27] @ question_in @ [CHR 0x27] @ '':\<newline>\<newline>'')
        @ ''Note: This is a basic summary. For a more coherent answer, please ensure your OpenAI API key is configured.'')"

definition no_information_message :: string where
  "no_information_message =
     ''I couldn'' @ [CHR 0x27] @ ''t find any relevant information to answer your question.''"

text \<open>Lines 136 to 158 of \<open>generate_response\<close>: the prompt sent to the answer service.\<close>

definition build_prompt :: "string \<Rightarrow> retrieved list \<Rightarrow> string" where
  "build_prompt question_in retrieved_chunks =
     (let context_parts = context_loop 1 retrieved_chunks [];
          context_text = join ''\<newline>\<newline>'' context_parts
      in make_prompt context_text question_in)"

definition generate_response :: "answer_api \<Rightarrow> string \<Rightarrow> retrieved list \<Rightarrow> string" where
  "generate_response llm question_in retrieved_chunks =
     (if retrieved_chunks = [] then no_information_message
      else
        case generate_with_openai llm (build_prompt question_in retrieved_chunks) of
          Some response_text \<Rightarrow> response_text
        | None \<Rightarrow> format_basic_response question_in retrieved_chunks)"

subsection \<open>query\<close>

record query_response =
  response :: string
  sources :: "retrieved list"
  question :: string

text \<open>
  \<open>query\<close> returns the raised exception or the response, together with the pipeline,
  whose embedding system has answered one more request unless the first check raised.
  \<open>retrieve\<close> is lines 61 to 84: the value of \<open>retrieved_chunks\<close>.
\<close>

definition retrieve ::
  "RAGPipeline \<Rightarrow> vec list \<Rightarrow> string \<Rightarrow> int \<Rightarrow> py_error + retrieved list" where
  "retrieve p question_embeddings question_in top_k =
     (if question_embeddings = [] then Inr (basic_text_search p question_in top_k)
      else
        let question_embedding = hd question_embeddings
        in if question_embedding = [] then Inr (basic_text_search p question_in top_k)
           else case search (vector_store p) question_embedding top_k of
                  Inl err \<Rightarrow> Inl err
                | Inr search_results \<Rightarrow>
                    Inr (map (\<lambda>(c, score). make_retrieved c score) search_results))"

definition query ::
  "embedding_api \<Rightarrow> answer_api \<Rightarrow> RAGPipeline \<Rightarrow> string \<Rightarrow> int
     \<Rightarrow> (py_error + query_response) \<times> RAGPipeline" where
  "query api llm p question_in top_k =
     (if \<not> is_initialized p then (Inl ValueError_not_initialized, p)
      else
        case generate_embeddings api (embedding_system p) [question_in] of
          (question_embeddings, es') \<Rightarrow>
            (case retrieve p question_embeddings question_in top_k of
               Inl err \<Rightarrow> (Inl err, p\<lparr>embedding_system := es'\<rparr>)
             | Inr retrieved_chunks \<Rightarrow>
                 (Inr \<lparr>response = generate_response llm question_in retrieved_chunks,
                       sources = retrieved_chunks,
                       question = question_in\<rparr>,
                  p\<lparr>embedding_system := es'\<rparr>)))"

section \<open>Specification-level notions\<close>



text \<open>
  Cosine similarity as the specification words it: \<open>dot(a,b) / (|a| |b|)\<close>, and 0
  whenever either norm is 0.
\<close>

definition spec_cosine :: "vec \<Rightarrow> vec \<Rightarrow> real" where
  "spec_cosine a b =
     (if norm2 a = 0 \<or> norm2 b = 0 then 0 else dot a b / (norm2 a * norm2 b))"

text \<open>
  The invariant of the vector data model: the two lists of the store are aligned, and
  every stored vector has the dimension \<open>d\<close>. \<open>has_dim d x\<close> says that the answer \<open>x\<close>
  of the embedding service is a failure, an empty vector, or a vector of dimension \<open>d\<close>.
\<close>

definition store_ok :: "nat \<Rightarrow> SimpleVectorStore \<Rightarrow> bool" where
  "store_ok d st =
     (length (chunks st) = length (embeddings st)
      \<and> list_all (\<lambda>e. length e = d) (embeddings st))"

fun has_dim :: "nat \<Rightarrow> vec option \<Rightarrow> bool" where
  "has_dim d None = True"
| "has_dim d (Some v) = (v = [] \<or> length v = d)"

section \<open>Example inputs\<close>

definition ex_chunker :: TextChunker where
  "ex_chunker = \<lparr>chunk_size = 6, chunk_overlap = 3\<rparr>"

definition ex_doc_boundary :: document where
  "ex_doc_boundary =
     \<lparr>content = ''ab.defghi'', source = ''c.txt'', metadata = [], doc_type = ''text''\<rparr>"

definition ex_doc_alpha :: document where
  "ex_doc_alpha =
     \<lparr>content = ''Alpha one'', source = ''a.txt'', metadata = [], doc_type = ''text''\<rparr>"

definition ex_doc_beta :: document where
  "ex_doc_beta =
     \<lparr>content = ''beta'', source = ''b.txt'', metadata = [], doc_type = ''text''\<rparr>"

definition ex_chunk_alpha :: chunk where
  "ex_chunk_alpha =
     \<lparr>content = ''Alpha one'', source = ''a.txt'', metadata = [], chunk_id = 0,
      start_char = 0, end_char = 1000\<rparr>"

definition ex_chunk_beta :: chunk where
  "ex_chunk_beta =
     \<lparr>content = ''beta'', source = ''b.txt'', metadata = [], chunk_id = 0,
      start_char = 0, end_char = 1000\<rparr>"

text \<open>
  A service that embeds only the text \<open>beta\<close>, one that is down, and one that
  returns a vector of dimension 1536 for every text; an answer service that is down.
\<close>

definition ex_api_beta_only :: embedding_api where
  "ex_api_beta_only n t = (if t = ''beta'' then Some [1] else None)"

definition ex_api_down :: embedding_api where
  "ex_api_down n t = None"


definition ex_llm_down :: answer_api where
  "ex_llm_down prompt = None"

text \<open>The pipeline after \<open>initialize\<close> with the service down: both chunks, placeholders only.\<close>

definition ex_pipeline_degraded :: RAGPipeline where
  "ex_pipeline_degraded =
     \<lparr>text_chunker = TextChunker_init,
      embedding_system = \<lparr>requests = 2\<rparr>,
      vector_store =
        \<lparr>embeddings = [placeholder, placeholder],
         chunks = [ex_chunk_alpha, ex_chunk_beta],
         store_metadata = [[], []]\<rparr>,
      is_initialized = True\<rparr>"

text \<open>A store of two chunks with orthogonal unit vectors.\<close>

definition ex_store_two :: SimpleVectorStore where
  "ex_store_two =
     \<lparr>embeddings = [[1, 0], [0, 1]],
      chunks = [ex_chunk_alpha, ex_chunk_beta],
      store_metadata = [[], []]\<rparr>"

section \<open>The chunking loop\<close>

lemma split_loop_iters:
  "snd (split_loop tc doc start cs iters)
     \<le> iters + nat (int (length (content doc)) - start)"
proof (induction tc doc start cs iters rule: split_loop.induct)
  case (1 tc doc start cs iters)
  show ?case
  proof (cases "start < int (length (content doc))")
    case True
    define end1 where "end1 = window_end tc (content doc) start"
    define cc where "cc = strip (py_slice (content doc) start end1)"
    define cs' where "cs' =
      (if cc \<noteq> [] then
         cs @ [\<lparr>content = cc, source = source doc,
                    metadata = metadata doc, chunk_id = length cs,
                    start_char = start, end_char = end1\<rparr>]
       else cs)"
    define start' where "start' = max (start + 1) (end1 - chunk_overlap tc)"
    have step: "split_loop tc doc start cs iters = split_loop tc doc start' cs' (Suc iters)"
      by (subst split_loop.simps) (simp add: True Let_def end1_def cc_def cs'_def start'_def)
    have IH: "snd (split_loop tc doc start' cs' (Suc iters))
                \<le> Suc iters + nat (int (length (content doc)) - start')"
      using 1[OF True end1_def cc_def cs'_def] by (simp add: start'_def)
    have "start + 1 \<le> start'"
      by (simp add: start'_def)
    with True have "Suc (nat (int (length (content doc)) - start'))
                      \<le> nat (int (length (content doc)) - start)"
      by linarith
    with IH step show ?thesis by simp
  next
    case False
    then show ?thesis by (subst split_loop.simps) simp
  qed
qed

lemmas chunker_eval =
  split_documents_def split_single_document_def split_iterations_def split_loop.simps
  window_end_def rfind_def py_index_def py_slice_def strip_def is_space_def Let_def

text \<open>
  C4, as amended. \<open>split_loop\<close> is a total function: the loop of
  \<open>_split_single_document\<close> terminates for every content and every configuration,
  because each iteration moves \<open>start\<close> forward by at least one. It executes at most
  \<open>len(content)\<close> iterations.
\<close>

theorem split_terminates_within_length:
  "split_iterations tc doc \<le> length (content doc)"
  using split_loop_iters [of tc doc 0 "[]" 0] by (simp add: split_iterations_def)

text \<open>
  C4, as stated, fails: with \<open>chunk_size = 6\<close> and \<open>overlap = 3\<close> the nine characters
  \<open>ab.defghi\<close> take five iterations (\<open>start\<close> = 0, 1, 2, 5, 8), while
  \<open>ceil(9 / (6 - 3)) + 1 = 4\<close>. The sentence boundary at position 2 pulls \<open>end\<close> back
  to 3, so \<open>start\<close> advances by one only until it reaches the boundary.
\<close>

theorem split_exceeds_spec_bound:
  "1 \<le> chunk_size ex_chunker \<and> 0 \<le> chunk_overlap ex_chunker
   \<and> chunk_overlap ex_chunker < chunk_size ex_chunker
   \<and> split_iterations ex_chunker ex_doc_boundary = 5
   \<and> spec_iteration_bound ex_chunker ex_doc_boundary = 4"
  by (simp add: ex_chunker_def ex_doc_boundary_def spec_iteration_bound_def chunker_eval)

section \<open>Batch embedding and initialization\<close>

lemma length_outcomes: "length (outcomes api n texts) = length texts"
  by (induction texts arbitrary: n) auto

lemma generate_embeddings_loop_eq:
  "generate_embeddings_loop api es texts embs =
     (embs @ map the (filter truthy (outcomes api (requests es) texts)),
      es\<lparr>requests := requests es + length texts\<rparr>)"
proof (induction texts arbitrary: es embs)
  case Nil
  show ?case by simp
next
  case (Cons t texts)
  show ?case
    by (simp add: generate_single_embedding_def Cons.IH)
qed

lemma add_chunks_basic_eq:
  "add_chunks_basic st cs =
     \<lparr>embeddings = embeddings st @ replicate (length cs) placeholder,
      chunks = chunks st @ cs,
      store_metadata = store_metadata st @ map metadata cs\<rparr>"
proof (induction cs arbitrary: st)
  case Nil
  show ?case by simp
next
  case (Cons c cs)
  show ?case by (simp add: Cons.IH replicate_append_same)
qed

lemma add_chunks_zip_eq:
  "add_chunks_zip st zs =
     \<lparr>embeddings = embeddings st @ map (\<lambda>(c, e). if e \<noteq> [] then e else placeholder) zs,
      chunks = chunks st @ map fst zs,
      store_metadata = store_metadata st @ map (\<lambda>(c, e). metadata c) zs\<rparr>"
proof (induction zs arbitrary: st)
  case Nil
  show ?case by simp
next
  case (Cons z zs)
  obtain c e where z: "z = (c, e)" by (cases z)
  show ?case by (simp add: z Cons.IH)
qed

lemma valid_loop_eq:
  "valid_loop zs vc ve =
     (vc @ map fst (filter (\<lambda>(c, e). e \<noteq> []) zs),
      ve @ map snd (filter (\<lambda>(c, e). e \<noteq> []) zs))"
proof (induction zs arbitrary: vc ve)
  case Nil
  show ?case by simp
next
  case (Cons z zs)
  obtain c e where z: "z = (c, e)" by (cases z)
  show ?case by (simp add: z Cons.IH)
qed

lemma ex_docs_chunks:
  "split_documents TextChunker_init [ex_doc_alpha, ex_doc_beta] = [ex_chunk_alpha, ex_chunk_beta]"
  by (simp add: TextChunker_init_def ex_doc_alpha_def ex_doc_beta_def ex_chunk_alpha_def
      ex_chunk_beta_def chunker_eval)

lemmas pipeline_eval =
  initialize_def generate_embeddings_def generate_single_embedding_def add_chunks_def
  RAGPipeline_init_def EmbeddingSystem_init_def SimpleVectorStore_init_def



text \<open>
  What \<open>initialize\<close> stores when at least one request of the batch succeeds: with \<open>m\<close>
  successes, the first \<open>m\<close> chunks, paired position by position with the \<open>m\<close> vectors
  that were returned.
\<close>

lemma initialize_stores_prefix:
  assumes "filter truthy
             (outcomes api (requests (embedding_system p))
                (map content (split_documents (text_chunker p) documents))) \<noteq> []"
  shows "chunks (vector_store (initialize api documents p))
           = chunks (vector_store p)
               @ take (length (fst (generate_embeddings api (embedding_system p)
                                      (map content (split_documents (text_chunker p) documents))))) 
                   (split_documents (text_chunker p) documents)
       \<and> embeddings (vector_store (initialize api documents p))
           = embeddings (vector_store p)
               @ fst (generate_embeddings api (embedding_system p)
                        (map content (split_documents (text_chunker p) documents)))"
proof -
  define cs where "cs = split_documents (text_chunker p) documents"
  define out where "out = outcomes api (requests (embedding_system p)) (map content cs)"
  define embs where "embs = map the (filter truthy out)"
  have g: "generate_embeddings api (embedding_system p) (map content cs)
             = (embs, (embedding_system p)\<lparr>requests :=
                  requests (embedding_system p) + length (map content cs)\<rparr>)"
    by (simp add: generate_embeddings_def generate_embeddings_loop_eq embs_def out_def)
  have ne: "e \<noteq> []" if "e \<in> set embs" for e
  proof -
    from that obtain x where x: "truthy x" "e = the x"
      unfolding embs_def set_map set_filter by blast
    then show ?thesis by (cases x) simp_all
  qed
  have "length embs \<le> length out"
    by (simp add: embs_def)
  then have le: "length embs \<le> length cs"
    by (simp add: out_def length_outcomes)
  have snd_ne: "e \<noteq> []" if "(c, e) \<in> set (zip xs embs)" for c e and xs :: "chunk list"
    using that by (intro ne) (rule set_zip_rightD)
  have all: "filter (\<lambda>(c, e). e \<noteq> []) (zip cs embs) = zip cs embs"
  proof (rule filter_True, intro ballI)
    fix z
    assume zin: "z \<in> set (zip cs embs)"
    obtain c e where z: "z = (c, e)"
      by (cases z)
    from zin snd_ne [of c e cs] show "case z of (c, e) \<Rightarrow> e \<noteq> []"
      unfolding z by simp
  qed
  have vc: "map fst (zip cs embs) = take (length embs) cs"
    using le by (simp add: map_fst_zip_take min_def)
  have ve: "map snd (zip cs embs) = embs"
    using le by (simp add: map_snd_zip_take min_def)
  from assms have pos: "embs \<noteq> []"
    by (simp add: embs_def out_def cs_def)
  with le have vne: "take (length embs) cs \<noteq> []"
    by (cases cs) auto
  have keep: "map (\<lambda>(c, e). if e \<noteq> [] then e else placeholder) (zip (take (length embs) cs) embs)
                = embs"
  proof -
    have "map (\<lambda>(c, e). if e \<noteq> [] then e else placeholder) (zip (take (length embs) cs) embs)
            = map snd (zip (take (length embs) cs) embs)"
    proof (rule map_cong [OF refl])
      fix z
      assume zin: "z \<in> set (zip (take (length embs) cs) embs)"
      obtain c e where z: "z = (c, e)"
        by (cases z)
      from zin snd_ne [of c e "take (length embs) cs"]
      show "(case z of (c, e) \<Rightarrow> if e \<noteq> [] then e else placeholder) = snd z"
        unfolding z by simp
    qed
    also have "\<dots> = embs"
      using le by (simp add: map_snd_zip_take min_def)
    finally show ?thesis .
  qed
  have len': "map fst (zip (take (length embs) cs) embs) = take (length embs) cs"
    using le by (simp add: map_fst_zip_take min_def)
  have st: "vector_store (initialize api documents p)
              = add_chunks (vector_store p) (take (length embs) cs) embs"
    using vne by (simp add: initialize_def Let_def cs_def [symmetric] g valid_loop_eq all vc ve)
  have "chunks (add_chunks (vector_store p) (take (length embs) cs) embs)
          = chunks (vector_store p) @ take (length embs) cs"
    and "embeddings (add_chunks (vector_store p) (take (length embs) cs) embs)
          = embeddings (vector_store p) @ embs"
    using pos by (simp_all add: add_chunks_def add_chunks_zip_eq keep len')
  then show ?thesis
    unfolding st cs_def [symmetric] g fst_conv by blast
qed

text \<open>
  C2 fails on the code. The batch result holds no entry for a failed text, and
  \<open>initialize\<close> zips it with the full chunk list: with two chunks of which only the
  second is embedded, the first chunk is stored with the second chunk's vector and the
  second chunk is discarded.
\<close>

theorem initialize_pairs_by_position:
  "outcomes ex_api_beta_only 0
     (map content (split_documents TextChunker_init [ex_doc_alpha, ex_doc_beta]))
     = [None, Some [1]]
   \<and> chunks (vector_store
        (initialize ex_api_beta_only [ex_doc_alpha, ex_doc_beta] RAGPipeline_init))
       = [ex_chunk_alpha]
   \<and> embeddings (vector_store
        (initialize ex_api_beta_only [ex_doc_alpha, ex_doc_beta] RAGPipeline_init))
       = [[1]]"
proof -
  have cs: "split_documents (text_chunker RAGPipeline_init) [ex_doc_alpha, ex_doc_beta]
              = [ex_chunk_alpha, ex_chunk_beta]"
    using ex_docs_chunks by (simp add: RAGPipeline_init_def)
  have c: "content ex_chunk_alpha = ''Alpha one''" "content ex_chunk_beta = ''beta''"
    by (simp_all add: ex_chunk_alpha_def ex_chunk_beta_def)
  show ?thesis
    by (simp add: initialize_def Let_def cs ex_docs_chunks c)
       (simp add: ex_api_beta_only_def pipeline_eval)
qed

text \<open>
  C3. When the request fails (or returns an empty vector) for every chunk,
  \<open>initialize\<close> appends every chunk to the store, each with a placeholder of 1536
  zeros, and sets \<open>is_initialized\<close>. \<open>initialize\<close> has no raising path.
\<close>

theorem initialize_degrades_when_all_fail:
  assumes "list_all (\<lambda>x. \<not> truthy x)
             (outcomes api (requests (embedding_system p))
                (map content (split_documents (text_chunker p) documents)))"
  shows "chunks (vector_store (initialize api documents p))
           = chunks (vector_store p) @ split_documents (text_chunker p) documents
       \<and> embeddings (vector_store (initialize api documents p))
           = embeddings (vector_store p)
               @ replicate (length (split_documents (text_chunker p) documents))
                   (replicate 1536 0)
       \<and> is_initialized (initialize api documents p)"
proof -
  let ?cs = "split_documents (text_chunker p) documents"
  from assms
  have "filter truthy (outcomes api (requests (embedding_system p)) (map content ?cs)) = []"
    by (simp add: list_all_iff filter_empty_conv)
  then have "fst (generate_embeddings api (embedding_system p) (map content ?cs)) = []"
    by (simp add: generate_embeddings_def generate_embeddings_loop_eq)
  then obtain es' where
    g: "generate_embeddings api (embedding_system p) (map content ?cs) = ([], es')"
    by (cases "generate_embeddings api (embedding_system p) (map content ?cs)") simp
  have st: "vector_store (initialize api documents p) = add_chunks (vector_store p) ?cs []"
    and ini: "is_initialized (initialize api documents p)"
    by (simp_all add: initialize_def Let_def g)
  show ?thesis
    by (simp add: st ini add_chunks_def add_chunks_basic_eq placeholder_def)
qed

theorem initialize_degrades_when_all_fail_witness:
  "list_all (\<lambda>x. \<not> truthy x)
     (outcomes ex_api_down (requests (embedding_system RAGPipeline_init))
        (map content
           (split_documents (text_chunker RAGPipeline_init) [ex_doc_alpha, ex_doc_beta])))
   \<and> chunks (vector_store (initialize ex_api_down [ex_doc_alpha, ex_doc_beta] RAGPipeline_init))
       = [ex_chunk_alpha, ex_chunk_beta]
   \<and> embeddings
        (vector_store (initialize ex_api_down [ex_doc_alpha, ex_doc_beta] RAGPipeline_init))
       = [replicate 1536 0, replicate 1536 0]
   \<and> is_initialized (initialize ex_api_down [ex_doc_alpha, ex_doc_beta] RAGPipeline_init)"
proof -
  have cs: "split_documents (text_chunker RAGPipeline_init) [ex_doc_alpha, ex_doc_beta]
              = [ex_chunk_alpha, ex_chunk_beta]"
    using ex_docs_chunks by (simp add: RAGPipeline_init_def)
  have h: "list_all (\<lambda>x. \<not> truthy x)
     (outcomes ex_api_down (requests (embedding_system RAGPipeline_init))
        (map content
           (split_documents (text_chunker RAGPipeline_init) [ex_doc_alpha, ex_doc_beta])))"
    by (simp add: cs ex_api_down_def)
  have e: "chunks (vector_store RAGPipeline_init) = []"
    "embeddings (vector_store RAGPipeline_init) = []"
    by (simp_all add: RAGPipeline_init_def SimpleVectorStore_init_def)
  have r: "replicate (Suc (Suc 0)) x = [x, x]" for x :: vec
    by simp
  from initialize_degrades_when_all_fail [OF h] h show ?thesis
    by (simp only: cs e append_Nil list.size r add_0 One_nat_def) simp
qed

section \<open>Lexical fallback search\<close>





lemma ex_pipeline_degraded_reached:
  "initialize ex_api_down [ex_doc_alpha, ex_doc_beta] RAGPipeline_init = ex_pipeline_degraded"
proof -
  have cs: "split_documents (text_chunker RAGPipeline_init) [ex_doc_alpha, ex_doc_beta]
              = [ex_chunk_alpha, ex_chunk_beta]"
    using ex_docs_chunks by (simp add: RAGPipeline_init_def)
  have c: "content ex_chunk_alpha = ''Alpha one''" "content ex_chunk_beta = ''beta''"
    "metadata ex_chunk_alpha = []" "metadata ex_chunk_beta = []"
    by (simp_all add: ex_chunk_alpha_def ex_chunk_beta_def)
  show ?thesis
    by (simp add: initialize_def Let_def cs c)
       (simp add: ex_api_down_def pipeline_eval ex_pipeline_degraded_def c)
qed



lemma split_ws_tokens:
  "w \<in> set (split_ws cur s) \<Longrightarrow> \<forall>c \<in> set cur. \<not> is_space c
     \<Longrightarrow> w \<noteq> [] \<and> (\<forall>c \<in> set w. \<not> is_space c) \<and> sublist w (cur @ s)"
proof (induction s arbitrary: cur)
  case Nil
  then show ?case by (auto split: if_splits)
next
  case (Cons c cs)
  show ?case
  proof (cases "is_space c")
    case True
    with Cons.prems(1) have "(w = cur \<and> cur \<noteq> []) \<or> w \<in> set (split_ws [] cs)"
      by (auto split: if_splits)
    then show ?thesis
    proof
      assume "w = cur \<and> cur \<noteq> []"
      with Cons.prems(2) show ?thesis by simp
    next
      assume "w \<in> set (split_ws [] cs)"
      then have tok: "w \<noteq> [] \<and> (\<forall>c \<in> set w. \<not> is_space c) \<and> sublist w ([] @ cs)"
        by (rule Cons.IH) simp
      then have "sublist w (c # cs)"
        by (simp add: sublist_Cons_right)
      then have "sublist w (cur @ c # cs)"
        by (simp only: sublist_append) simp
      with tok show ?thesis by simp
    qed
  next
    case False
    with Cons.prems have "w \<in> set (split_ws (cur @ [c]) cs)"
      and "\<forall>x \<in> set (cur @ [c]). \<not> is_space x"
      by simp_all
    then have "w \<noteq> [] \<and> (\<forall>c \<in> set w. \<not> is_space c) \<and> sublist w ((cur @ [c]) @ cs)"
      by (rule Cons.IH)
    then show ?thesis by simp
  qed
qed

lemma py_split_tokens:
  "w \<in> set (py_split s) \<Longrightarrow> w \<noteq> [] \<and> (\<forall>c \<in> set w. \<not> is_space c) \<and> sublist w s"
  using split_ws_tokens [of w "[]" s] by (simp add: py_split_def)

lemma generate_embeddings_single:
  "generate_embeddings api es [q]
     = (if truthy (api (requests es) q) then [the (api (requests es) q)] else [],
        es\<lparr>requests := Suc (requests es)\<rparr>)"
  by (simp add: generate_embeddings_def generate_single_embedding_def)


text \<open>
  C6. On an initialized pipeline, when the request for the question fails or returns an
  empty vector, \<open>query\<close> takes its passages from \<open>_basic_text_search\<close> over the stored
  chunks. The similarity search is not consulted: the result is the same whatever
  vectors the store holds.
\<close>

theorem query_falls_back_to_lexical:
  assumes "is_initialized p"
    and "\<not> truthy (api (requests (embedding_system p)) q)"
  shows "fst (query api llm p q k)
           = Inr \<lparr>response = generate_response llm q (basic_text_search p q k),
                  sources = basic_text_search p q k,
                  question = q\<rparr>
       \<and> fst (query api llm (p\<lparr>vector_store := (vector_store p)\<lparr>embeddings := E\<rparr>\<rparr>) q k)
           = fst (query api llm p q k)"
  using assms
  by (simp add: query_def generate_embeddings_single retrieve_def basic_text_search_def)

theorem query_falls_back_to_lexical_witness:
  "is_initialized ex_pipeline_degraded
   \<and> \<not> truthy (ex_api_down (requests (embedding_system ex_pipeline_degraded)) ''alpha'')
   \<and> fst (query ex_api_down ex_llm_down ex_pipeline_degraded ''alpha'' 5)
       = Inr \<lparr>response =
                 generate_response ex_llm_down ''alpha''
                   (basic_text_search ex_pipeline_degraded ''alpha'' 5),
               sources = basic_text_search ex_pipeline_degraded ''alpha'' 5,
               question = ''alpha''\<rparr>"
proof -
  have h1: "is_initialized ex_pipeline_degraded"
    by (simp add: ex_pipeline_degraded_def)
  have h2: "\<not> truthy (ex_api_down (requests (embedding_system ex_pipeline_degraded)) ''alpha'')"
    by (simp add: ex_api_down_def)
  from query_falls_back_to_lexical
         [of ex_pipeline_degraded ex_api_down "''alpha''" ex_llm_down 5 "[]", OF h1 h2] h1 h2
  show ?thesis
    by (simp only: simp_thms)
qed



section \<open>Answer generation\<close>

lemma format_loop_prefix: "\<exists>rest. format_loop i rs acc = acc @ rest"
proof (induction rs arbitrary: i acc)
  case Nil
  show ?case by simp
next
  case (Cons r rs)
  from Cons.IH [of "Suc i"] show ?case
    by (simp del: append_assoc add: append_assoc [symmetric]) (metis append_assoc)
qed

lemma format_loop_keeps: "sublist x acc \<Longrightarrow> sublist x (format_loop i rs acc)"
proof -
  assume x: "sublist x acc"
  obtain rest where "format_loop i rs acc = acc @ rest"
    using format_loop_prefix by blast
  with x show ?thesis
    by (simp add: sublist_append)
qed

lemma format_loop_mentions:
  "r \<in> set rs \<Longrightarrow>
     sublist (source (chunk r)) (format_loop i rs acc)
     \<and> sublist (content (chunk r)) (format_loop i rs acc)"
proof (induction rs arbitrary: i acc)
  case Nil
  then show ?case by simp
next
  case (Cons a rs)
  show ?case
  proof (cases "r = a")
    case True
    let ?acc = "acc @ show_nat i @ ''. From '' @ source (chunk a) @ '':\<newline>''
                  @ content (chunk a) @ ''\<newline>\<newline>''"
    have s: "sublist (source (chunk a)) ?acc"
      using sublist_appendI [of "source (chunk a)" "acc @ show_nat i @ ''. From ''"
          "'':\<newline>'' @ content (chunk a) @ ''\<newline>\<newline>''"]
      by simp
    have c: "sublist (content (chunk a)) ?acc"
      using sublist_appendI [of "content (chunk a)"
          "acc @ show_nat i @ ''. From '' @ source (chunk a) @ '':\<newline>''" "''\<newline>\<newline>''"]
      by simp
    from s c True show ?thesis
      using format_loop_keeps [of _ ?acc "Suc i" rs] by simp
  next
    case False
    with Cons.prems have "r \<in> set rs" by simp
    from Cons.IH [OF this] show ?thesis by simp
  qed
qed

text \<open>
  C9. For a non-empty list of retrieved passages, when the answer service raises on the
  prompt, \<open>generate_response\<close> returns the templated answer of
  \<open>_format_basic_response\<close>, in which the source identifier and the content of every
  retrieved passage occur. For an empty list it returns the fixed message, whatever the
  answer service would do.
\<close>

theorem generate_response_falls_back_to_template:
  "(rs \<noteq> [] \<and> llm (build_prompt q rs) = None \<longrightarrow>
      generate_response llm q rs = format_basic_response q rs
      \<and> (\<forall>r \<in> set rs.
            sublist (source (chunk r)) (generate_response llm q rs)
            \<and> sublist (content (chunk r)) (generate_response llm q rs)))
   \<and> generate_response llm q [] = no_information_message"
proof (intro conjI impI)
  assume a: "rs \<noteq> [] \<and> llm (build_prompt q rs) = None"
  then show eq: "generate_response llm q rs = format_basic_response q rs"
    by (simp add: generate_response_def generate_with_openai_def)
  have "sublist (source (chunk r)) (format_basic_response q rs)
        \<and> sublist (content (chunk r)) (format_basic_response q rs)"
    if "r \<in> set rs" for r
    using format_loop_mentions [OF that] a
    by (simp add: format_basic_response_def sublist_append)
  then show "\<forall>r \<in> set rs.
               sublist (source (chunk r)) (generate_response llm q rs)
               \<and> sublist (content (chunk r)) (generate_response llm q rs)"
    unfolding eq by blast
next
  show "generate_response llm q [] = no_information_message"
    by (simp add: generate_response_def)
qed

theorem generate_response_falls_back_to_template_witness:
  "[make_retrieved ex_chunk_alpha 1] \<noteq> []
   \<and> ex_llm_down (build_prompt ''alpha'' [make_retrieved ex_chunk_alpha 1]) = None
   \<and> generate_response ex_llm_down ''alpha'' [make_retrieved ex_chunk_alpha 1]
       = format_basic_response ''alpha'' [make_retrieved ex_chunk_alpha 1]
   \<and> sublist ''a.txt''
        (generate_response ex_llm_down ''alpha'' [make_retrieved ex_chunk_alpha 1])
   \<and> sublist ''Alpha one''
        (generate_response ex_llm_down ''alpha'' [make_retrieved ex_chunk_alpha 1])"
proof -
  have h1: "[make_retrieved ex_chunk_alpha 1] \<noteq> []" by simp
  have h2: "ex_llm_down (build_prompt ''alpha'' [make_retrieved ex_chunk_alpha 1]) = None"
    by (simp add: ex_llm_down_def)
  have c: "source (chunk (make_retrieved ex_chunk_alpha 1)) = ''a.txt''"
    "content (chunk (make_retrieved ex_chunk_alpha 1)) = ''Alpha one''"
    by (simp_all add: make_retrieved_def ex_chunk_alpha_def)
  from generate_response_falls_back_to_template
         [of "[make_retrieved ex_chunk_alpha 1]" ex_llm_down "''alpha''"] h1 h2
  have t: "generate_response ex_llm_down ''alpha'' [make_retrieved ex_chunk_alpha 1]
             = format_basic_response ''alpha'' [make_retrieved ex_chunk_alpha 1]
           \<and> (\<forall>r \<in> set [make_retrieved ex_chunk_alpha 1].
                 sublist (source (chunk r))
                   (generate_response ex_llm_down ''alpha'' [make_retrieved ex_chunk_alpha 1])
                 \<and> sublist (content (chunk r))
                   (generate_response ex_llm_down ''alpha'' [make_retrieved ex_chunk_alpha 1]))"
    by blast
  have a: "generate_response ex_llm_down ''alpha'' [make_retrieved ex_chunk_alpha 1]
             = format_basic_response ''alpha'' [make_retrieved ex_chunk_alpha 1]"
    by (rule t [THEN conjunct1])
  have "\<forall>r \<in> set [make_retrieved ex_chunk_alpha 1].
          sublist (source (chunk r))
            (generate_response ex_llm_down ''alpha'' [make_retrieved ex_chunk_alpha 1])
          \<and> sublist (content (chunk r))
            (generate_response ex_llm_down ''alpha'' [make_retrieved ex_chunk_alpha 1])"
    by (rule t [THEN conjunct2])
  then have b: "sublist (source (chunk (make_retrieved ex_chunk_alpha 1)))
                  (generate_response ex_llm_down ''alpha'' [make_retrieved ex_chunk_alpha 1])"
    "sublist (content (chunk (make_retrieved ex_chunk_alpha 1)))
       (generate_response ex_llm_down ''alpha'' [make_retrieved ex_chunk_alpha 1])"
    by simp_all
  from a b [unfolded c] h1 h2 show ?thesis
    by blast
qed

section \<open>Similarity search\<close>

lemma cosine_similarity_eq:
  "length a = length b \<Longrightarrow> cosine_similarity a b = Inr (spec_cosine a b)"
  by (simp add: cosine_similarity_def spec_cosine_def)

lemma similarities_loop_eq:
  "\<forall>e \<in> set es. length e = length q
     \<Longrightarrow> similarities_loop q es acc = Inr (acc @ map (spec_cosine q) es)"
proof (induction es arbitrary: acc)
  case Nil
  show ?case by simp
next
  case (Cons e es)
  then show ?case by (simp add: cosine_similarity_eq)
qed

lemma results_loop_eq:
  "\<forall>i \<in> set idxs. i < length cs
     \<Longrightarrow> results_loop cs sims idxs acc
           = Inr (acc @ map (\<lambda>i. (cs ! i, sims ! i)) (filter (\<lambda>i. 0 < sims ! i) idxs))"
proof (induction idxs arbitrary: acc)
  case Nil
  show ?case by simp
next
  case (Cons i idxs)
  then show ?case by simp
qed

lemma set_top_indices: "set (top_indices sims k) \<subseteq> {0..<length sims}"
proof -
  have "set (drop n (argsort sims)) \<subseteq> set (argsort sims)" for n
    by (rule set_drop_subset)
  then show ?thesis
    by (simp add: top_indices_def py_slice_from_def argsort_def)
qed

lemma distinct_top_indices: "distinct (top_indices sims k)"
  by (simp add: top_indices_def py_slice_from_def argsort_def)

lemma sorted_top_indices:
  "sorted_wrt (\<lambda>i j. sims ! j \<le> sims ! i) (top_indices sims k)"
proof -
  have "sorted (map (\<lambda>i. sims ! i) (argsort sims))"
    unfolding argsort_def by (rule sorted_sort_key)
  then have "sorted_wrt (\<lambda>i j. sims ! i \<le> sims ! j) (argsort sims)"
    by (simp add: sorted_map)
  then have "sorted_wrt (\<lambda>i j. sims ! i \<le> sims ! j)
               (drop (py_index (length (argsort sims)) (- k)) (argsort sims))"
    by (rule sorted_wrt_drop)
  then show ?thesis
    by (simp add: top_indices_def py_slice_from_def sorted_wrt_rev)
qed

lemma length_top_indices: "1 \<le> k \<Longrightarrow> length (top_indices sims k) \<le> nat k"
  by (simp add: top_indices_def py_slice_from_def py_index_def argsort_def)

lemma norm2_zero_iff: "norm2 v = 0 \<longleftrightarrow> (\<forall>x \<in> set v. x = 0)"
proof -
  have nonneg: "0 \<le> sum_list (map (\<lambda>x. x * x) v)" for v :: vec
    by (induction v) simp_all
  have "sum_list (map (\<lambda>x. x * x) v) = 0 \<longleftrightarrow> (\<forall>x \<in> set v. x = 0)"
  proof (induction v)
    case Nil
    show ?case by simp
  next
    case (Cons a v)
    have "a * a + sum_list (map (\<lambda>x. x * x) v) = 0
            \<longleftrightarrow> a * a = 0 \<and> sum_list (map (\<lambda>x. x * x) v) = 0"
      using nonneg [of v] by (intro add_nonneg_eq_0_iff) simp_all
    with Cons show ?case by simp
  qed
  then show ?thesis
    by (simp add: norm2_def)
qed

text \<open>
  What \<open>search\<close> returns on a well-formed store for a query of the store's dimension:
  the chunks at distinct positions of the store, each with the cosine similarity of its
  vector to the query, which is positive; in descending order of similarity; no position
  whose vector is all zeros; and at most \<open>top_k\<close> of them when \<open>top_k \<ge> 1\<close>.
\<close>

lemma search_returns:
  assumes "store_ok d st" and "length q = d"
  shows "\<exists>idxs.
           search st q k
             = Inr (map (\<lambda>i. (chunks st ! i, spec_cosine q (embeddings st ! i))) idxs)
           \<and> distinct idxs
           \<and> (\<forall>i \<in> set idxs. i < length (embeddings st)
                 \<and> 0 < spec_cosine q (embeddings st ! i)
                 \<and> \<not> (\<forall>x \<in> set (embeddings st ! i). x = 0))
           \<and> sorted_wrt (\<lambda>i j. spec_cosine q (embeddings st ! j)
                                  \<le> spec_cosine q (embeddings st ! i)) idxs
           \<and> (1 \<le> k \<longrightarrow> length idxs \<le> nat k)
           \<and> (embeddings st = [] \<longrightarrow> idxs = [])"
proof (cases "embeddings st = []")
  case True
  then have "search st q k = Inr []"
    by (simp add: search_def)
  then show ?thesis
    by (intro exI [of _ "[]"]) simp
next
  case False
  let ?es = "embeddings st"
  let ?sims = "map (spec_cosine q) ?es"
  let ?idxs = "filter (\<lambda>i. 0 < ?sims ! i) (top_indices ?sims k)"
  from assms have len: "length (chunks st) = length ?es"
    and dims: "\<forall>e \<in> set ?es. length e = length q"
    by (simp_all add: store_ok_def list_all_iff)
  have sims: "similarities_loop q ?es [] = Inr ?sims"
    using similarities_loop_eq [OF dims, of "[]"] by simp
  have range: "\<forall>i \<in> set (top_indices ?sims k). i < length ?es"
    using set_top_indices [of ?sims k] by auto
  then have range': "\<forall>i \<in> set (top_indices ?sims k). i < length (chunks st)"
    by (simp add: len)
  have nth: "?sims ! i = spec_cosine q (?es ! i)" if "i \<in> set ?idxs" for i
    using that range by simp
  have res: "search st q k = Inr (map (\<lambda>i. (chunks st ! i, ?sims ! i)) ?idxs)"
    using False results_loop_eq [OF range', of ?sims "[]"]
    by (simp add: search_def sims)
  have res': "search st q k = Inr (map (\<lambda>i. (chunks st ! i, spec_cosine q (?es ! i))) ?idxs)"
    unfolding res using nth by (simp cong: map_cong)
  have dist: "distinct ?idxs"
    using distinct_top_indices by simp
  have pos: "i < length ?es \<and> 0 < spec_cosine q (?es ! i) \<and> \<not> (\<forall>x \<in> set (?es ! i). x = 0)"
    if "i \<in> set ?idxs" for i
  proof -
    from that range have i: "i < length ?es"
      by simp
    from that have "0 < ?sims ! i"
      by simp
    with i have p: "0 < spec_cosine q (?es ! i)"
      by simp
    from p have "norm2 (?es ! i) \<noteq> 0"
      by (auto simp: spec_cosine_def split: if_splits)
    with i p show ?thesis
      by (simp add: norm2_zero_iff)
  qed
  have s0: "sorted_wrt (\<lambda>i j. ?sims ! j \<le> ?sims ! i) ?idxs"
    using sorted_top_indices by (rule sorted_wrt_filter)
  have sorted: "sorted_wrt (\<lambda>i j. spec_cosine q (?es ! j) \<le> spec_cosine q (?es ! i)) ?idxs"
  proof (rule sorted_wrt_mono_rel [OF _ s0])
    fix i j
    assume a: "i \<in> set ?idxs" "j \<in> set ?idxs" "?sims ! j \<le> ?sims ! i"
    from a(3) show "spec_cosine q (?es ! j) \<le> spec_cosine q (?es ! i)"
      unfolding nth [OF a(1)] nth [OF a(2)] .
  qed
  have short: "length ?idxs \<le> nat k" if "1 \<le> k"
    by (rule order_trans [OF length_filter_le length_top_indices [OF that]])
  show ?thesis
  proof (intro exI [of _ ?idxs] conjI)
    show "search st q k = Inr (map (\<lambda>i. (chunks st ! i, spec_cosine q (?es ! i))) ?idxs)"
      by (rule res')
    show "distinct ?idxs"
      by (rule dist)
    show "\<forall>i \<in> set ?idxs. i < length ?es \<and> 0 < spec_cosine q (?es ! i)
            \<and> \<not> (\<forall>x \<in> set (?es ! i). x = 0)"
      using pos by blast
    show "sorted_wrt (\<lambda>i j. spec_cosine q (?es ! j) \<le> spec_cosine q (?es ! i)) ?idxs"
      by (rule sorted)
    show "1 \<le> k \<longrightarrow> length ?idxs \<le> nat k"
      using short by blast
    show "?es = [] \<longrightarrow> ?idxs = []"
      using False by simp
  qed
qed

text \<open>A store that holds only all-zero vectors answers every query with no result.\<close>

lemma search_only_zero_vectors:
  assumes "store_ok d st" and "length q = d"
    and "\<forall>e \<in> set (embeddings st). \<forall>x \<in> set e. x = 0"
  shows "search st q k = Inr []"
proof -
  from search_returns [OF assms(1,2), of k] obtain idxs where
    r: "search st q k
          = Inr (map (\<lambda>i. (chunks st ! i, spec_cosine q (embeddings st ! i))) idxs)"
    and p: "\<forall>i \<in> set idxs. i < length (embeddings st)
              \<and> 0 < spec_cosine q (embeddings st ! i)
              \<and> \<not> (\<forall>x \<in> set (embeddings st ! i). x = 0)"
    by blast
  have "idxs = []"
  proof (rule ccontr)
    assume "idxs \<noteq> []"
    then obtain i where i: "i \<in> set idxs"
      by (cases idxs) auto
    with p have "i < length (embeddings st)" and nz: "\<not> (\<forall>x \<in> set (embeddings st ! i). x = 0)"
      by blast+
    then have "embeddings st ! i \<in> set (embeddings st)"
      by simp
    with assms(3) nz show False
      by blast
  qed
  with r show ?thesis by simp
qed

text \<open>A query whose dimension differs from the stored one makes \<open>np.dot\<close> raise.\<close>

lemma search_dimension_mismatch:
  "search ex_store_two [1] 5 = Inl ValueError_shapes_not_aligned"
  by (simp add: search_def ex_store_two_def cosine_similarity_def)

lemma store_ok_init: "store_ok d SimpleVectorStore_init"
  by (simp add: store_ok_def SimpleVectorStore_init_def)

lemma add_chunks_store_ok:
  assumes "store_ok 1536 st" and "\<forall>e \<in> set embs. e \<noteq> [] \<longrightarrow> length e = 1536"
  shows "store_ok 1536 (add_chunks st cs embs)"
proof (cases "embs = []")
  case True
  with assms(1) show ?thesis
    by (auto simp: add_chunks_def add_chunks_basic_eq store_ok_def placeholder_def list_all_iff)
next
  case False
  have "\<forall>z \<in> set (zip cs embs). snd z \<noteq> [] \<longrightarrow> length (snd z) = 1536"
    using assms(2) by (auto dest: set_zip_rightD)
  then have "list_all (\<lambda>e. length e = 1536)
               (map (\<lambda>(c, e). if e \<noteq> [] then e else placeholder) (zip cs embs))"
    by (auto simp: list_all_iff placeholder_def)
  with assms(1) False show ?thesis
    by (simp add: add_chunks_def add_chunks_zip_eq store_ok_def)
qed

text \<open>
  \<open>initialize\<close> keeps the store well-formed with dimension 1536, the dimension of the
  placeholder, when every vector the embedding service returns has that dimension.
\<close>

lemma initialize_store_ok:
  assumes "store_ok 1536 (vector_store p)"
    and "list_all (has_dim 1536)
           (outcomes api (requests (embedding_system p))
              (map content (split_documents (text_chunker p) documents)))"
  shows "store_ok 1536 (vector_store (initialize api documents p))"
proof -
  let ?cs = "split_documents (text_chunker p) documents"
  let ?out = "outcomes api (requests (embedding_system p)) (map content ?cs)"
  let ?embs = "map the (filter truthy ?out)"
  have g: "generate_embeddings api (embedding_system p) (map content ?cs)
             = (?embs, (embedding_system p)\<lparr>requests :=
                  requests (embedding_system p) + length (map content ?cs)\<rparr>)"
    by (simp add: generate_embeddings_def generate_embeddings_loop_eq)
  have dims: "\<forall>e \<in> set ?embs. e \<noteq> [] \<longrightarrow> length e = 1536"
  proof (intro ballI impI)
    fix e
    assume "e \<in> set ?embs" and "e \<noteq> []"
    then obtain x where x: "x \<in> set ?out" "truthy x" "e = the x"
      unfolding set_map set_filter by blast
    from x(2) obtain v where "x = Some v"
      by (cases x) simp_all
    with x assms(2) \<open>e \<noteq> []\<close> show "length e = 1536"
      by (auto simp: list_all_iff)
  qed
  let ?F = "filter (\<lambda>(c, e). e \<noteq> []) (zip ?cs ?embs)"
  have dims': "\<forall>e \<in> set (map snd ?F). e \<noteq> [] \<longrightarrow> length e = 1536"
  proof (intro ballI impI)
    fix e
    assume "e \<in> set (map snd ?F)" and ne: "e \<noteq> []"
    then obtain c where "(c, e) \<in> set ?F"
      by auto
    then have "(c, e) \<in> set (zip ?cs ?embs)"
      by simp
    then have "e \<in> set ?embs"
      by (rule set_zip_rightD)
    with dims ne show "length e = 1536"
      by blast
  qed
  have "vector_store (initialize api documents p) = add_chunks (vector_store p) ?cs []
        \<or> vector_store (initialize api documents p)
            = add_chunks (vector_store p) (map fst ?F) (map snd ?F)"
    by (simp add: initialize_def Let_def g valid_loop_eq)
  then show ?thesis
    using add_chunks_store_ok [OF assms(1), of "[]" ?cs]
      add_chunks_store_ok [OF assms(1) dims', of "map fst ?F"]
    by auto
qed

text \<open>
  C5 fails on the code for \<open>top_k = 0\<close>. The slice \<open>[-top_k:]\<close> is then \<open>[0:]\<close>, the
  whole array, so every stored chunk with a positive similarity is returned: here one
  result, although at most zero are asked for. For \<open>top_k \<ge> 1\<close>, \<open>search_returns\<close>
  above proves what the claim says.
\<close>

theorem search_top_k_zero_returns_all:
  "search ex_store_two [1, 0] 0 = Inr [(ex_chunk_alpha, 1)]"
proof -
  have n: "norm2 [1, 0] = 1" "norm2 [0, 1] = 1"
    by (simp_all add: norm2_def)
  have c: "cosine_similarity [1, 0] [1, 0] = Inr 1" "cosine_similarity [1, 0] [0, 1] = Inr 0"
    by (simp_all add: cosine_similarity_def n dot_def)
  have s: "similarities_loop [1, 0] [[1, 0], [0, 1]] [] = Inr [1, 0]"
    by (simp add: c)
  have u: "[0..<2] = [0, Suc 0]"
    by (simp add: upt_rec)
  have t: "top_indices [1, 0] 0 = [0, Suc 0]"
    by (simp add: top_indices_def argsort_def py_slice_from_def py_index_def u)
  have e: "embeddings ex_store_two = [[1, 0], [0, 1]]"
    "chunks ex_store_two = [ex_chunk_alpha, ex_chunk_beta]"
    by (simp_all add: ex_store_two_def)
  show ?thesis
    unfolding search_def e s by (simp add: t)
qed

section \<open>The only raising path of query\<close>



end
